theory Spec2Isabelle
  imports Complex_Main
begin

section \<open>Values\<close>

text \<open>
  What \<open>axios\<close> hands over as \<open>response.data\<close>, what \<open>response.json()\<close> resolves
  with, and what a state cell of type \<open>T | null\<close> holds: a value parsed from JSON.
  \<open>null\<close> is \<open>JNull\<close>.
\<close>

datatype json_value =
    JNull
  | JBool bool
  | JNumber real
  | JString string
  | JArray "json_value list"
  | JObject "(string \<times> json_value) list"

text \<open>
  The test that \<open>&&\<close> and \<open>!\<close> apply to a value: \<open>null\<close>, \<open>false\<close>, zero and the
  empty string are falsy, every array and object is truthy.
\<close>

fun truthy :: "json_value \<Rightarrow> bool" where
  "truthy JNull = False"
| "truthy (JBool b) = b"
| "truthy (JNumber x) = (x \<noteq> 0)"
| "truthy (JString s) = (s \<noteq> [])"
| "truthy (JArray xs) = True"
| "truthy (JObject fs) = True"

text \<open>The same test on a cell of type \<open>string | null\<close>.\<close>

fun truthy_string :: "string option \<Rightarrow> bool" where
  "truthy_string None = False"
| "truthy_string (Some m) = (m \<noteq> [])"

section \<open>The data-fetching hook \<open>useAxiosFetch\<close>\<close>

text \<open>
  The hook keeps three state cells, created by \<open>useState\<close>:
  \<^verbatim>\<open>
  const [data, setData] = useState<T | null>(null);
  const [isLoading, setIsLoading] = useState<boolean>(false);
  const [error, setError] = useState<string | null>(null);
  \<close>
  The application is mounted with \<open>createRoot\<close>, so the setter calls of one synchronous
  run are applied together: the states a consumer can see are the ones between the runs,
  which is the granularity of the functions below.
\<close>

record hook_state =
  data :: json_value
  isLoading :: bool
  error :: "string option"

definition useAxiosFetch_init :: hook_state where
  "useAxiosFetch_init = \<lparr>data = JNull, isLoading = False, error = None\<rparr>"

definition setData :: "json_value \<Rightarrow> hook_state \<Rightarrow> hook_state" where
  "setData v s = s\<lparr>data := v\<rparr>"

definition setIsLoading :: "bool \<Rightarrow> hook_state \<Rightarrow> hook_state" where
  "setIsLoading b s = s\<lparr>isLoading := b\<rparr>"

definition setError :: "string option \<Rightarrow> hook_state \<Rightarrow> hook_state" where
  "setError e s = s\<lparr>error := e\<rparr>"

text \<open>
  What a \<open>catch (err)\<close> clause can receive: an instance of \<open>Error\<close> with its message, or
  any other thrown value.
\<close>

datatype thrown = ErrorInstance string | NotAnError

text \<open>
  How the promise awaited by an attempt settles: with \<open>response.data\<close>, which may be
  \<open>null\<close> or any other value, or rejected.
\<close>

datatype settled = Resolved json_value | Rejected thrown

text \<open>\<^verbatim>\<open>err instanceof Error ? err.message : "Unbekannter Fehler"\<close>\<close>

definition catch_message :: "thrown \<Rightarrow> string" where
  "catch_message err = (case err of ErrorInstance m \<Rightarrow> m | NotAnError \<Rightarrow> ''Unbekannter Fehler'')"

text \<open>
  \<open>fetchData\<close> is one \<open>async\<close> function; it is split at its only \<open>await\<close>.
  \<open>fetchData_begin\<close> is the part that runs when \<open>fetchData\<close> is called:
  \<^verbatim>\<open>
  setIsLoading(true);
  setError(null);
  \<close>
  \<open>fetchData_settle\<close> is the part that runs when \<open>axios.get<T>(url)\<close> has settled:
  \<^verbatim>\<open>
  try { ...; setData(response.data); }
  catch (err) { const message = ...; setError(message); setData(null); }
  finally { setIsLoading(false); }
  \<close>
\<close>

definition fetchData_begin :: "hook_state \<Rightarrow> hook_state" where
  "fetchData_begin s = setError None (setIsLoading True s)"

definition fetchData_settle :: "settled \<Rightarrow> hook_state \<Rightarrow> hook_state" where
  "fetchData_settle r s =
     setIsLoading False
       (case r of
          Resolved d \<Rightarrow> setData d s
        | Rejected err \<Rightarrow> setData JNull (setError (Some (catch_message err)) s))"

subsection \<open>What the consumer shows\<close>

text \<open>
  The hook returns \<open>{ data, isLoading, error, refetch }\<close>. The component that uses it
  renders one piece for each of four conditions, each a test of truthiness:
  \<^verbatim>\<open>
  {isLoadingAxios && <p>Daten werden geladen ...</p>}
  {errorAxios && <p>Fehler ...</p>}
  {!isLoadingAxios && !errorAxios && apodAxios && <NasaApodCard .../>}
  {!isLoadingAxios && !errorAxios && !apodAxios && <p>Noch keine Daten ...</p>}
  \<close>
  \<open>status_of_fields\<close> names them, the loading flag first: \<open>Loading\<close> for the first
  piece, \<open>Failed\<close> for the second, \<open>Succeeded\<close> for the card and \<open>Idle\<close> for the last.
  The component that calls \<open>loadWithFetch\<close> renders its three cells by the same four
  conditions.
\<close>

datatype status = Idle | Loading | Succeeded | Failed

definition status_of_fields :: "bool \<Rightarrow> string option \<Rightarrow> json_value \<Rightarrow> status" where
  "status_of_fields loading err val =
     (if loading then Loading
      else if truthy_string err then Failed
      else if truthy val then Succeeded
      else Idle)"

definition status_of :: "hook_state \<Rightarrow> status" where
  "status_of s = status_of_fields (isLoading s) (error s) (data s)"

definition observe :: "hook_state \<Rightarrow> json_value \<times> status \<times> string option" where
  "observe s = (data s, status_of s, error s)"

subsection \<open>Attempts in flight\<close>

text \<open>
  An instance of the hook together with the promises it is waiting for. \<open>Start u\<close> is a
  call of \<open>fetchData\<close> by the effect (on mount, or when \<open>url\<close> has changed to \<open>u\<close>),
  \<open>Refetch\<close> a call of the returned \<open>refetch\<close>, \<open>Settle n r\<close> the settling of the
  promise of attempt \<open>n\<close>. The effect returns no cleanup function and the hook keeps no
  flag of its own, so after \<open>Unmount\<close> the continuation of a pending attempt still runs;
  React drops updates to the state of an unmounted component, which is the \<open>alive\<close>
  test in \<open>deliver\<close>. A promise settles once: \<open>Settle n r\<close> needs attempt \<open>n\<close> to be
  outstanding.

  \<open>data_by\<close> and \<open>error_by\<close> are bookkeeping and no state of the hook: the attempt
  whose continuation made the last call of \<open>setData\<close>, and the attempt whose
  continuation set the error that has not been cleared by a later call of \<open>fetchData\<close>.
\<close>

record world =
  hook :: hook_state
  alive :: bool
  cur_url :: "string option"
  pending :: "(nat \<times> string) list"
  issued :: nat
  data_by :: "nat option"
  error_by :: "nat option"

datatype event = Start string | Refetch | Settle nat settled | Unmount

definition init_world :: world where
  "init_world = \<lparr>hook = useAxiosFetch_init, alive = True, cur_url = None, pending = [],
                  issued = 0, data_by = None, error_by = None\<rparr>"

definition issue :: "string \<Rightarrow> world \<Rightarrow> world" where
  "issue u w = w\<lparr>hook := fetchData_begin (hook w), cur_url := Some u,
                 pending := pending w @ [(issued w, u)], issued := Suc (issued w),
                 error_by := None\<rparr>"

definition deliver :: "nat \<Rightarrow> settled \<Rightarrow> world \<Rightarrow> world" where
  "deliver n r w =
     (if alive w
      then w\<lparr>hook := fetchData_settle r (hook w),
             pending := filter (\<lambda>p. fst p \<noteq> n) (pending w),
             data_by := Some n,
             error_by := (case r of Resolved d \<Rightarrow> error_by w | Rejected err \<Rightarrow> Some n)\<rparr>
      else w\<lparr>pending := filter (\<lambda>p. fst p \<noteq> n) (pending w)\<rparr>)"

fun step :: "event \<Rightarrow> world \<Rightarrow> world option" where
  "step (Start u) w = (if alive w then Some (issue u w) else None)"
| "step Refetch w =
     (case cur_url w of
        None \<Rightarrow> None
      | Some u \<Rightarrow> if alive w then Some (issue u w) else None)"
| "step (Settle n r) w = (if n \<in> fst ` set (pending w) then Some (deliver n r w) else None)"
| "step Unmount w = (if alive w then Some (w\<lparr>alive := False\<rparr>) else None)"

fun run :: "event list \<Rightarrow> world \<Rightarrow> world option" where
  "run [] w = Some w"
| "run (e # es) w = (case step e w of None \<Rightarrow> None | Some w' \<Rightarrow> run es w')"

subsection \<open>Traces\<close>

text \<open>The outcome that a trace delivers to attempt \<open>n\<close>, if it delivers one.\<close>

fun delivered :: "event list \<Rightarrow> nat \<Rightarrow> settled option" where
  "delivered [] n = None"
| "delivered (Settle m r # es) n = (if m = n then Some r else delivered es n)"
| "delivered (Start u # es) n = delivered es n"
| "delivered (Refetch # es) n = delivered es n"
| "delivered (Unmount # es) n = delivered es n"

text \<open>
  What is to be seen of an outcome and of nothing else: a payload is the value, with no
  error, and shows as \<open>Succeeded\<close> when it is truthy (as no data otherwise); a rejection
  is its message, with no value, and shows as \<open>Failed\<close> when the message is not empty.
\<close>

fun outcome_view :: "settled \<Rightarrow> json_value \<times> status \<times> string option" where
  "outcome_view (Resolved d) = (d, if truthy d then Succeeded else Idle, None)"
| "outcome_view (Rejected err) =
     (JNull, if catch_message err = [] then Idle else Failed, Some (catch_message err))"

text \<open>
  The view of \<open>w\<close>, reached by the trace \<open>evs\<close>, is that of the attempt started last:
  its outcome when the trace has delivered it, and loading without an error before.
\<close>

definition reflects_latest :: "event list \<Rightarrow> world \<Rightarrow> bool" where
  "reflects_latest evs w =
     (if issued w = 0 then observe (hook w) = (JNull, Idle, None)
      else case delivered evs (issued w - 1) of
             None \<Rightarrow> status_of (hook w) = Loading \<and> error (hook w) = None
           | Some r \<Rightarrow> observe (hook w) = outcome_view r)"

fun is_call :: "event \<Rightarrow> bool" where
  "is_call (Start u) = True"
| "is_call Refetch = True"
| "is_call (Settle n r) = False"
| "is_call Unmount = False"

text \<open>
  A trace in which \<open>fetchData\<close> is only called while no attempt is outstanding. The
  component passes a constant \<open>url\<close> and renders the button that calls \<open>refetch\<close> with
  \<open>disabled={isLoadingAxios}\<close>.
\<close>

fun no_overlap :: "event list \<Rightarrow> world \<Rightarrow> bool" where
  "no_overlap [] w = True"
| "no_overlap (e # es) w =
     (if is_call e \<and> pending w \<noteq> [] then False
      else case step e w of None \<Rightarrow> True | Some w' \<Rightarrow> no_overlap es w')"

text \<open>
  What the bookkeeping keeps, along every trace: the loading flag is never set together
  with an error; an error that is held was set by some attempt, and that attempt is no
  longer outstanding; a value that is held was set by some attempt, and not by the one
  that set the error.
\<close>

definition writers_inv :: "world \<Rightarrow> bool" where
  "writers_inv w =
     ((isLoading (hook w) \<longrightarrow> error (hook w) = None) \<and>
      (case error_by w of
         None \<Rightarrow> error (hook w) = None
       | Some m \<Rightarrow> m \<notin> fst ` set (pending w)) \<and>
      (data (hook w) \<noteq> JNull \<longrightarrow>
         (case data_by w of None \<Rightarrow> False | Some n \<Rightarrow> error_by w \<noteq> Some n)))"

section \<open>The variant with \<open>fetch\<close>: \<open>loadWithFetch\<close>\<close>

text \<open>
  \<^verbatim>\<open>
  const [apodFetch, setApodFetch] = useState<NasaApod | null>(null);
  const [isLoadingFetch, setIsLoadingFetch] = useState<boolean>(false);
  const [errorFetch, setErrorFetch] = useState<string | null>(null);
  \<close>
\<close>

record fetch_state =
  apodFetch :: json_value
  isLoadingFetch :: bool
  errorFetch :: "string option"

text \<open>
  The \<open>Response\<close> that \<open>fetch\<close> resolves with: its status code and what
  \<open>response.json()\<close> settles with. \<open>response.ok\<close> is, by the Fetch standard, true for
  the status codes 200 to 299.
\<close>

record response =
  status :: nat
  json :: settled

definition ok :: "response \<Rightarrow> bool" where
  "ok response = (200 \<le> status response \<and> status response \<le> 299)"

text \<open>\<open>fetch\<close> resolves with a response, or rejects when there is none.\<close>

datatype fetched = Responded response | NoResponse thrown

text \<open>The decimal digits of a status code, as the template literal prints it.\<close>

fun string_of_number :: "nat \<Rightarrow> string" where
  "string_of_number n =
     (if n < 10 then [char_of (48 + n)]
      else string_of_number (n div 10) @ [char_of (48 + n mod 10)])"

declare string_of_number.simps [simp del]

text \<open>
  The \<open>try\<close> block, as the value it ends with: \<open>Inl\<close> what it throws, \<open>Inr\<close> the data.
  \<^verbatim>\<open>
  const response = await fetch(nasaApodUrl);
  if (!response.ok) { throw new Error(`HTTP-Fehler: ${response.status}`); }
  const data = (await response.json()) as NasaApod;
  \<close>
\<close>

definition loadWithFetch_try :: "fetched \<Rightarrow> thrown + json_value" where
  "loadWithFetch_try f =
     (case f of
        NoResponse err \<Rightarrow> Inl err
      | Responded response \<Rightarrow>
          if \<not> ok response
          then Inl (ErrorInstance (''HTTP-Fehler: '' @ string_of_number (status response)))
          else (case json response of Rejected err \<Rightarrow> Inl err | Resolved d \<Rightarrow> Inr d))"

text \<open>
  As with \<open>fetchData\<close>, the function is split: the part before the first \<open>await\<close>, and
  the rest, which changes the state only once both awaited promises have settled.
\<close>

definition loadWithFetch_begin :: "fetch_state \<Rightarrow> fetch_state" where
  "loadWithFetch_begin s = s\<lparr>isLoadingFetch := True, errorFetch := None\<rparr>"

definition loadWithFetch_settle :: "fetched \<Rightarrow> fetch_state \<Rightarrow> fetch_state" where
  "loadWithFetch_settle f s =
     (case loadWithFetch_try f of
        Inr d \<Rightarrow> s\<lparr>apodFetch := d\<rparr>
      | Inl err \<Rightarrow>
          s\<lparr>errorFetch := Some (''Fehler beim Laden (fetch): '' @ catch_message err),
            apodFetch := JNull\<rparr>)
     \<lparr>isLoadingFetch := False\<rparr>"

definition observe_fetch :: "fetch_state \<Rightarrow> json_value \<times> status \<times> string option" where
  "observe_fetch s =
     (apodFetch s, status_of_fields (isLoadingFetch s) (errorFetch s) (apodFetch s), errorFetch s)"

section \<open>The theme context: \<open>useTheme\<close>\<close>


datatype Theme = Light | Dark

text \<open>
  \<open>toggleTheme\<close> calls \<open>setTheme\<close> with an updater; the field holds that updater.
\<close>

record ThemeContextValue =
  theme :: Theme
  toggleTheme :: "Theme \<Rightarrow> Theme"

text \<open>
  The components above the one that calls \<open>useTheme\<close>, nearest first. \<open>ThemeContext\<close> is
  not exported, so \<open>ThemeProvider\<close>, with its \<open>theme\<close> state, is the only component that
  renders \<open>ThemeContext.Provider\<close>.
\<close>

datatype ancestor = ThemeProvider Theme | OtherComponent

definition ThemeProvider_value :: "Theme \<Rightarrow> ThemeContextValue" where
  "ThemeProvider_value t =
     \<lparr>theme = t, toggleTheme = (\<lambda>prev. if prev = Light then Dark else Light)\<rparr>"

text \<open>
  \<open>useContext(ThemeContext)\<close>: the value of the nearest provider, or the default given to
  \<open>createContext\<close>, which is \<open>undefined\<close>.
\<close>

fun useContext_ThemeContext :: "ancestor list \<Rightarrow> ThemeContextValue option" where
  "useContext_ThemeContext [] = None"
| "useContext_ThemeContext (ThemeProvider t # as) = Some (ThemeProvider_value t)"
| "useContext_ThemeContext (OtherComponent # as) = useContext_ThemeContext as"

datatype js_error = Error string

definition useTheme :: "ancestor list \<Rightarrow> js_error + ThemeContextValue" where
  "useTheme ancestors =
     (case useContext_ThemeContext ancestors of
        None \<Rightarrow> Inl (Error ''useTheme muss innerhalb von ThemeProvider verwendet werden.'')
      | Some ctx \<Rightarrow> Inr ctx)"

section \<open>Properties of one attempt\<close>

lemmas eval_defs = init_world_def useAxiosFetch_init_def issue_def deliver_def
  fetchData_begin_def fetchData_settle_def setData_def setError_def setIsLoading_def
  catch_message_def observe_def status_of_def status_of_fields_def reflects_latest_def

lemma fetchData_begin_fields:
  "data (fetchData_begin s) = data s"
  "isLoading (fetchData_begin s) = True"
  "error (fetchData_begin s) = None"
  by (simp_all add: fetchData_begin_def setError_def setIsLoading_def)

lemma fetchData_settle_Resolved:
  "data (fetchData_settle (Resolved d) s) = d"
  "isLoading (fetchData_settle (Resolved d) s) = False"
  "error (fetchData_settle (Resolved d) s) = error s"
  by (simp_all add: fetchData_settle_def setData_def setIsLoading_def)

lemma fetchData_settle_Rejected:
  "data (fetchData_settle (Rejected e) s) = JNull"
  "isLoading (fetchData_settle (Rejected e) s) = False"
  "error (fetchData_settle (Rejected e) s) = Some (catch_message e)"
  by (simp_all add: fetchData_settle_def setData_def setError_def setIsLoading_def)

text \<open>
  C7. Calling \<open>fetchData\<close> (by the effect or through \<open>refetch\<close>), from any state,
  also a failed one, sets the loading flag and clears the error, so that what is observed
  right after the call is \<open>Loading\<close> with no error; the value is the one held before.
  The locator is only passed on to \<open>axios.get\<close> and has no part in this.
\<close>

theorem start_sets_loading_and_clears_error:
  "observe (fetchData_begin s) = (data s, Loading, None)"
  by (simp add: observe_def status_of_def status_of_fields_def fetchData_begin_fields)

text \<open>
  C5, as stated, fails. \<open>setData(response.data)\<close> stores whatever the response carries:
  with the body \<open>null\<close> the instance ends with no value, and with the empty string it
  holds the string but shows no data; neither is \<open>Succeeded\<close>.
\<close>

theorem round_trip_null_payload_counterexample:
  "observe (fetchData_settle (Resolved JNull) (fetchData_begin useAxiosFetch_init)) =
     (JNull, Idle, None) \<and>
   observe (fetchData_settle (Resolved (JString [])) (fetchData_begin useAxiosFetch_init)) =
     (JString [], Idle, None)"
  by (simp add: eval_defs)

text \<open>
  C5, as the code has it. A call of \<open>fetchData\<close> whose request resolves with a truthy
  payload \<open>P\<close> (an object or an array; not \<open>null\<close>, \<open>false\<close>, zero or the empty string)
  ends, from any state, in exactly the value \<open>P\<close>, status \<open>Succeeded\<close> and no error.
\<close>

theorem round_trip_success:
  "truthy P \<Longrightarrow>
   observe (fetchData_settle (Resolved P) (fetchData_begin s)) = (P, Succeeded, None)"
  by (simp add: observe_def status_of_def status_of_fields_def fetchData_settle_Resolved
      fetchData_begin_fields)

theorem round_trip_success_witness:
  "truthy (JObject [(''title'', JString ''T'')]) \<and>
   observe (fetchData_settle (Resolved (JObject [(''title'', JString ''T'')]))
     (fetchData_begin \<lparr>data = JNull, isLoading = False, error = Some ''Network Error''\<rparr>)) =
     (JObject [(''title'', JString ''T'')], Succeeded, None)"
proof -
  have t: "truthy (JObject [(''title'', JString ''T'')])" by simp
  from round_trip_success [OF t] t show ?thesis by simp
qed

text \<open>
  C10. When the awaited request has settled, resolved or rejected, the \<open>finally\<close> clause
  has set the loading flag to false, whatever the state was before.
\<close>

theorem settle_clears_loading:
  "isLoading (fetchData_settle r s) = False"
  by (cases r) (simp_all add: fetchData_settle_Resolved fetchData_settle_Rejected)

text \<open>
  C2, as the code has it. A call of \<open>fetchData\<close> whose request is rejected ends, from any
  state, also one that holds a value, with the value cleared by \<open>setData(null)\<close> and the
  error set to the message; the status is \<open>Failed\<close>, for every message that is not the
  empty string (which alone shows as no data).
\<close>

theorem failed_retrigger_clears_value:
  "observe (fetchData_settle (Rejected e) (fetchData_begin s)) =
     (JNull, if catch_message e = [] then Idle else Failed, Some (catch_message e))"
  by (simp add: observe_def status_of_def status_of_fields_def fetchData_settle_Rejected)

text \<open>
  C2, as stated, fails: from the state that shows the value \<open>7\<close> as \<open>Succeeded\<close>, a
  refetch that is rejected leaves no value.
\<close>

theorem failed_retrigger_retains_value_counterexample:
  "observe \<lparr>data = JNumber 7, isLoading = False, error = None\<rparr> =
     (JNumber 7, Succeeded, None) \<and>
   observe (fetchData_settle (Rejected (ErrorInstance ''Network Error''))
     (fetchData_begin \<lparr>data = JNumber 7, isLoading = False, error = None\<rparr>)) =
     (JNull, Failed, Some ''Network Error'') \<and>
   data (fetchData_settle (Rejected (ErrorInstance ''Network Error''))
     (fetchData_begin \<lparr>data = JNumber 7, isLoading = False, error = None\<rparr>)) \<noteq> JNumber 7"
  by (simp add: eval_defs)



section \<open>Properties of interleavings\<close>

subsection \<open>The writers of the value and of the error\<close>

lemma writers_inv_init: "writers_inv init_world"
  by (simp add: writers_inv_def init_world_def useAxiosFetch_init_def)

lemma writers_inv_issue: "writers_inv w \<Longrightarrow> writers_inv (issue u w)"
  by (auto simp: writers_inv_def issue_def fetchData_begin_fields split: option.splits)

lemma writers_inv_deliver:
  assumes "writers_inv w" and "n \<in> fst ` set (pending w)"
  shows "writers_inv (deliver n r w)"
proof (cases "alive w")
  case False
  with assms(1) show ?thesis
    by (auto simp: writers_inv_def deliver_def split: option.splits)
next
  case True
  show ?thesis
  proof (cases r)
    case (Resolved d)
    with True assms show ?thesis
      by (auto simp: writers_inv_def deliver_def fetchData_settle_Resolved split: option.splits)
  next
    case (Rejected err)
    with True assms show ?thesis
      by (auto simp: writers_inv_def deliver_def fetchData_settle_Rejected split: option.splits)
  qed
qed

lemma writers_inv_step: "step e w = Some w' \<Longrightarrow> writers_inv w \<Longrightarrow> writers_inv w'"
proof (cases e)
  case (Start u)
  assume "step e w = Some w'" "writers_inv w"
  with Start show ?thesis by (auto simp: writers_inv_issue split: if_splits)
next
  case Refetch
  assume "step e w = Some w'" "writers_inv w"
  with Refetch show ?thesis by (auto simp: writers_inv_issue split: if_splits option.splits)
next
  case (Settle n r)
  assume st: "step e w = Some w'" and inv: "writers_inv w"
  from st Settle have mem: "n \<in> fst ` set (pending w)" and w': "w' = deliver n r w"
    by (simp_all split: if_splits)
  from writers_inv_deliver [OF inv mem] w' show ?thesis by simp
next
  case Unmount
  assume st: "step e w = Some w'" and inv: "writers_inv w"
  from st Unmount have "w' = w\<lparr>alive := False\<rparr>" by (simp split: if_splits)
  with inv show ?thesis
    by (cases "error_by w"; cases "data_by w") (simp_all add: writers_inv_def)
qed

lemma writers_inv_run: "run evs w = Some w' \<Longrightarrow> writers_inv w \<Longrightarrow> writers_inv w'"
proof (induction evs arbitrary: w)
  case Nil
  then show ?case by simp
next
  case (Cons e es)
  from Cons.prems(1) obtain w1 where st: "step e w = Some w1" and rn: "run es w1 = Some w'"
    by (auto split: option.splits)
  from writers_inv_step [OF st Cons.prems(2)] Cons.IH [OF rn] show ?case by simp
qed

text \<open>
  C4. After every trace of calls, settlements and unmounting from the initial state,
  exactly one of these holds: there is a value and the status is \<open>Succeeded\<close>; there is
  an error and the status is \<open>Failed\<close>; the status is \<open>Idle\<close> or \<open>Loading\<close>. The status
  is \<open>Failed\<close> exactly when the error is shown, and \<open>Loading\<close> goes with no error, since
  every call clears the error as it sets the loading flag and every settlement clears the
  flag. And a value and an error that are held together are never the outcome of one
  attempt: they were set by the continuations of two different attempts.
\<close>

theorem value_and_error_by_attempt:
  "run evs init_world = Some w \<Longrightarrow>
   ((data (hook w) \<noteq> JNull \<and> status_of (hook w) = Succeeded) \<and>
      \<not> (error (hook w) \<noteq> None \<and> status_of (hook w) = Failed) \<and>
      \<not> (status_of (hook w) = Idle \<or> status_of (hook w) = Loading) \<or>
    \<not> (data (hook w) \<noteq> JNull \<and> status_of (hook w) = Succeeded) \<and>
      (error (hook w) \<noteq> None \<and> status_of (hook w) = Failed) \<and>
      \<not> (status_of (hook w) = Idle \<or> status_of (hook w) = Loading) \<or>
    \<not> (data (hook w) \<noteq> JNull \<and> status_of (hook w) = Succeeded) \<and>
      \<not> (error (hook w) \<noteq> None \<and> status_of (hook w) = Failed) \<and>
      (status_of (hook w) = Idle \<or> status_of (hook w) = Loading)) \<and>
   (status_of (hook w) = Failed) = truthy_string (error (hook w)) \<and>
   (status_of (hook w) = Loading \<longrightarrow> error (hook w) = None) \<and>
   (data (hook w) \<noteq> JNull \<and> error (hook w) \<noteq> None \<longrightarrow>
      (\<exists>n m. data_by w = Some n \<and> error_by w = Some m \<and> n \<noteq> m))"
proof -
  assume r: "run evs init_world = Some w"
  from writers_inv_run [OF r writers_inv_init] have inv: "writers_inv w" .
  from inv have load: "isLoading (hook w) \<longrightarrow> error (hook w) = None"
    by (simp add: writers_inv_def)
  have part: "(status_of (hook w) = Succeeded \<longrightarrow> data (hook w) \<noteq> JNull) \<and>
    (status_of (hook w) = Failed) = truthy_string (error (hook w)) \<and>
    (status_of (hook w) = Loading \<longrightarrow> error (hook w) = None)"
    using load by (cases "error (hook w)") (auto simp: status_of_def status_of_fields_def)
  have fail: "status_of (hook w) = Failed \<longrightarrow> error (hook w) \<noteq> None"
    using part by (cases "error (hook w)") simp_all
  have both: "data (hook w) \<noteq> JNull \<and> error (hook w) \<noteq> None \<longrightarrow>
      (\<exists>n m. data_by w = Some n \<and> error_by w = Some m \<and> n \<noteq> m)"
    using inv by (auto simp: writers_inv_def split: option.splits)
  show ?thesis
    using part fail both by (cases "status_of (hook w)") simp_all
qed

theorem value_and_error_by_attempt_witness:
  "run [Start ''u1'', Start ''u2'', Settle 0 (Rejected NotAnError),
        Settle 1 (Resolved (JString ''P2''))] init_world =
   Some \<lparr>hook = \<lparr>data = JString ''P2'', isLoading = False, error = Some ''Unbekannter Fehler''\<rparr>,
         alive = True, cur_url = Some ''u2'', pending = [], issued = 2,
         data_by = Some 1, error_by = Some 0\<rparr> \<and>
   status_of \<lparr>data = JString ''P2'', isLoading = False, error = Some ''Unbekannter Fehler''\<rparr> =
     Failed \<and>
   (\<exists>n m. Some (1::nat) = Some n \<and> Some (0::nat) = Some m \<and> n \<noteq> m)"
proof -
  let ?W = "\<lparr>hook = \<lparr>data = JString ''P2'', isLoading = False, error = Some ''Unbekannter Fehler''\<rparr>,
         alive = True, cur_url = Some ''u2'', pending = [], issued = 2,
         data_by = Some 1, error_by = Some 0\<rparr>"
  have r: "run [Start ''u1'', Start ''u2'', Settle 0 (Rejected NotAnError),
      Settle 1 (Resolved (JString ''P2''))] init_world = Some ?W"
    by (simp add: eval_defs)
  from value_and_error_by_attempt [OF r] r show ?thesis by simp
qed

subsection \<open>Attempts that overlap, and attempts that do not\<close>

text \<open>
  C1, as stated, fails. \<open>fetchData\<close> holds no generation counter and its continuation
  tests nothing before it calls the setters: with two attempts outstanding, the one started
  second resolving first with \<open>P2\<close> and the one started first resolving afterwards with
  \<open>P1\<close>, the instance ends showing \<open>P1\<close>.
\<close>

theorem stale_outcome_applied_counterexample:
  "run [Start ''u1'', Start ''u2'', Settle 1 (Resolved (JString ''P2'')),
        Settle 0 (Resolved (JString ''P1''))] init_world =
   Some \<lparr>hook = \<lparr>data = JString ''P1'', isLoading = False, error = None\<rparr>, alive = True,
         cur_url = Some ''u2'', pending = [], issued = 2, data_by = Some 0,
         error_by = None\<rparr> \<and>
   delivered [Start ''u1'', Start ''u2'', Settle 1 (Resolved (JString ''P2'')),
        Settle 0 (Resolved (JString ''P1''))] 1 = Some (Resolved (JString ''P2'')) \<and>
   \<not> reflects_latest
     [Start ''u1'', Start ''u2'', Settle 1 (Resolved (JString ''P2'')),
      Settle 0 (Resolved (JString ''P1''))]
     \<lparr>hook = \<lparr>data = JString ''P1'', isLoading = False, error = None\<rparr>, alive = True,
      cur_url = Some ''u2'', pending = [], issued = 2, data_by = Some 0, error_by = None\<rparr>"
  by (simp add: eval_defs)

lemma run_snoc:
  "run (es @ [e]) w = (case run es w of None \<Rightarrow> None | Some w' \<Rightarrow> step e w')"
  by (induction es arbitrary: w) (auto split: option.splits)

lemma no_overlap_snoc:
  "run es w = Some w' \<Longrightarrow>
   no_overlap (es @ [e]) w = (no_overlap es w \<and> \<not> (is_call e \<and> pending w' \<noteq> []))"
  by (induction es arbitrary: w) (auto split: option.splits)

lemma delivered_snoc:
  "delivered (es @ [e]) n = (case delivered es n of Some r \<Rightarrow> Some r | None \<Rightarrow> delivered [e] n)"
  by (induction es n rule: delivered.induct) auto

lemma observe_settle_no_error:
  "error s = None \<Longrightarrow> observe (fetchData_settle r s) = outcome_view r"
  by (cases r)
    (simp_all add: observe_def status_of_def status_of_fields_def fetchData_settle_Resolved
      fetchData_settle_Rejected)

text \<open>
  What holds along a trace without overlap: at most the attempt started last is
  outstanding, and then the instance is loading with no error; otherwise that attempt's
  outcome has been delivered and is what the instance shows.
\<close>

lemma no_overlap_invariant:
  "run evs init_world = Some w \<Longrightarrow> Unmount \<notin> set evs \<Longrightarrow> no_overlap evs init_world \<Longrightarrow>
     alive w \<and> (\<forall>n. issued w \<le> n \<longrightarrow> delivered evs n = None) \<and>
     (if pending w = []
      then issued w = 0 \<and> observe (hook w) = (JNull, Idle, None) \<or>
           0 < issued w \<and>
           (\<exists>r. delivered evs (issued w - 1) = Some r \<and> observe (hook w) = outcome_view r)
      else (\<exists>u. pending w = [(issued w - 1, u)]) \<and> 0 < issued w \<and>
           delivered evs (issued w - 1) = None \<and> isLoading (hook w) \<and> error (hook w) = None)"
proof (induction evs arbitrary: w rule: rev_induct)
  case Nil
  then have "w = init_world" by simp
  then show ?case
    by (simp add: init_world_def useAxiosFetch_init_def observe_def status_of_def
        status_of_fields_def)
next
  case (snoc e es)
  from snoc.prems(1) obtain w0 where run0: "run es init_world = Some w0"
    and st: "step e w0 = Some w"
    by (auto simp: run_snoc split: option.splits)
  from snoc.prems(2) have nu: "Unmount \<notin> set es" and ne: "e \<noteq> Unmount" by auto
  from snoc.prems(3) run0 have no: "no_overlap es init_world"
    and gate: "\<not> (is_call e \<and> pending w0 \<noteq> [])"
    by (simp_all add: no_overlap_snoc)
  note ih = snoc.IH [OF run0 nu no]
  from ih have al: "alive w0" by simp
  from ih have fresh: "\<And>n. issued w0 \<le> n \<Longrightarrow> delivered es n = None" by simp
  show ?case
  proof (cases e)
    case (Start u)
    with gate have pe: "pending w0 = []" by simp
    from Start st al have w: "w = issue u w0" by simp
    show ?thesis
      using fresh pe al unfolding w Start
      by (simp add: issue_def delivered_snoc fetchData_begin_fields)
  next
    case Refetch
    with gate have pe: "pending w0 = []" by simp
    from Refetch st al obtain u where w: "w = issue u w0"
      by (auto split: option.splits)
    show ?thesis
      using fresh pe al unfolding w Refetch
      by (simp add: issue_def delivered_snoc fetchData_begin_fields)
  next
    case (Settle n r)
    with st have mem: "n \<in> fst ` set (pending w0)" and w: "w = deliver n r w0"
      by (auto split: if_splits)
    from mem have "pending w0 \<noteq> []" by auto
    with ih obtain u where pw: "pending w0 = [(issued w0 - 1, u)]" and pos: "0 < issued w0"
      and undelivered: "delivered es (issued w0 - 1) = None" and noerr: "error (hook w0) = None"
      by auto
    from mem pw have n: "n = issued w0 - 1" by simp
    have obs: "observe (fetchData_settle r (hook w0)) = outcome_view r"
      using noerr by (rule observe_settle_no_error)
    have later: "\<And>m. issued w0 \<le> m \<Longrightarrow> delivered (es @ [Settle n r]) m = None"
      using fresh pos n by (simp add: delivered_snoc)
    show ?thesis
      using al pw pos undelivered obs later unfolding w Settle
      by (simp add: deliver_def delivered_snoc n)
  next
    case Unmount
    with ne show ?thesis by simp
  qed
qed

text \<open>
  C1, as the code has it. When every call of \<open>fetchData\<close> is made while no attempt is
  outstanding, then after any trace of calls and settlements the instance shows the
  outcome of the attempt started last and nothing else: its payload as the value with no
  error (\<open>Succeeded\<close>, for a truthy payload), or its message as the error with no value
  (\<open>Failed\<close>, for a message that is not empty); until that outcome arrives it is loading
  with no error.
\<close>

theorem sequential_calls_reflect_latest:
  "run evs init_world = Some w \<Longrightarrow> Unmount \<notin> set evs \<Longrightarrow> no_overlap evs init_world \<Longrightarrow>
   reflects_latest evs w"
  using no_overlap_invariant [of evs w]
  by (auto simp: reflects_latest_def status_of_def status_of_fields_def split: if_splits)

theorem sequential_calls_reflect_latest_witness:
  "run [Start ''u1'', Settle 0 (Resolved (JString ''P1'')), Refetch,
        Settle 1 (Rejected (ErrorInstance ''Network Error''))] init_world =
   Some \<lparr>hook = \<lparr>data = JNull, isLoading = False, error = Some ''Network Error''\<rparr>,
         alive = True, cur_url = Some ''u1'', pending = [], issued = 2,
         data_by = Some 1, error_by = Some 1\<rparr> \<and>
   no_overlap [Start ''u1'', Settle 0 (Resolved (JString ''P1'')), Refetch,
        Settle 1 (Rejected (ErrorInstance ''Network Error''))] init_world \<and>
   observe \<lparr>data = JNull, isLoading = False, error = Some ''Network Error''\<rparr> =
     (JNull, Failed, Some ''Network Error'') \<and>
   reflects_latest [Start ''u1'', Settle 0 (Resolved (JString ''P1'')), Refetch,
        Settle 1 (Rejected (ErrorInstance ''Network Error''))]
     \<lparr>hook = \<lparr>data = JNull, isLoading = False, error = Some ''Network Error''\<rparr>,
      alive = True, cur_url = Some ''u1'', pending = [], issued = 2,
      data_by = Some 1, error_by = Some 1\<rparr>"
proof -
  let ?T = "[Start ''u1'', Settle 0 (Resolved (JString ''P1'')), Refetch,
        Settle 1 (Rejected (ErrorInstance ''Network Error''))]"
  let ?W = "\<lparr>hook = \<lparr>data = JNull, isLoading = False, error = Some ''Network Error''\<rparr>,
      alive = True, cur_url = Some ''u1'', pending = [], issued = 2,
      data_by = Some 1, error_by = Some 1\<rparr>"
  have r: "run ?T init_world = Some ?W" by (simp add: eval_defs)
  have u: "Unmount \<notin> set ?T" by simp
  have n: "no_overlap ?T init_world" by (simp add: eval_defs)
  have o: "observe \<lparr>data = JNull, isLoading = False, error = Some ''Network Error''\<rparr> =
     (JNull, Failed, Some ''Network Error'')"
    by (simp add: observe_def status_of_def status_of_fields_def)
  from sequential_calls_reflect_latest [OF r u n] r n o show ?thesis by simp
qed

subsection \<open>After unmounting\<close>

lemma run_not_alive:
  "\<not> alive w \<Longrightarrow> run evs w = Some w' \<Longrightarrow> hook w' = hook w \<and> \<not> alive w'"
proof (induction evs arbitrary: w)
  case Nil
  then show ?case by simp
next
  case (Cons e es)
  from Cons.prems obtain w1 where st: "step e w = Some w1" and rn: "run es w1 = Some w'"
    by (auto split: option.splits)
  from st Cons.prems(1) have "hook w1 = hook w \<and> \<not> alive w1"
    by (cases e) (auto simp: deliver_def split: option.splits if_splits)
  with Cons.IH [OF _ rn] show ?case by simp
qed

text \<open>
  C6. Once the instance is unmounted, whatever is delivered to its outstanding attempts,
  resolved or rejected and in any order, what it shows stays what it was at unmounting.
\<close>

theorem completion_after_unmount_is_ignored:
  "run (Unmount # evs) w = Some w' \<Longrightarrow> observe (hook w') = observe (hook w)"
proof -
  assume r: "run (Unmount # evs) w = Some w'"
  then have rn: "run evs (w\<lparr>alive := False\<rparr>) = Some w'"
    by (auto split: if_splits option.splits)
  from run_not_alive [OF _ rn] show ?thesis by simp
qed

theorem completion_after_unmount_is_ignored_witness:
  "run [Unmount, Settle 0 (Resolved (JNumber 5))] (issue ''u1'' init_world) =
     Some \<lparr>hook = \<lparr>data = JNull, isLoading = True, error = None\<rparr>, alive = False,
           cur_url = Some ''u1'', pending = [], issued = 1, data_by = None,
           error_by = None\<rparr> \<and>
   observe \<lparr>data = JNull, isLoading = True, error = None\<rparr> =
     observe (hook (issue ''u1'' init_world))"
proof -
  let ?W = "\<lparr>hook = \<lparr>data = JNull, isLoading = True, error = None\<rparr>, alive = False,
           cur_url = Some ''u1'', pending = [], issued = 1, data_by = None,
           error_by = None\<rparr>"
  have r: "run [Unmount, Settle 0 (Resolved (JNumber 5))] (issue ''u1'' init_world) = Some ?W"
    by (simp add: eval_defs)
  from completion_after_unmount_is_ignored [OF r] r show ?thesis by simp
qed

section \<open>Properties of \<open>loadWithFetch\<close>\<close>

lemma loadWithFetch_try_not_ok:
  "\<not> ok response \<Longrightarrow>
   loadWithFetch_try (Responded response) =
     Inl (ErrorInstance (''HTTP-Fehler: '' @ string_of_number (status response)))"
  by (simp add: loadWithFetch_try_def)

text \<open>
  C3. A response whose status code is outside 200 to 299 is a failure that names the code,
  whatever its body is and whether or not the body would parse: the state ends with no
  value, status \<open>Failed\<close> and the message \<open>Fehler beim Laden (fetch): HTTP-Fehler: \<close>
  followed by the code. The string message is the hook's error descriptor.
\<close>

theorem non_ok_response_is_failure:
  "\<not> ok response \<Longrightarrow>
   observe_fetch (loadWithFetch_settle (Responded response) (loadWithFetch_begin s)) =
     (JNull, Failed,
      Some (''Fehler beim Laden (fetch): HTTP-Fehler: '' @ string_of_number (status response)))"
  by (simp add: observe_fetch_def loadWithFetch_settle_def loadWithFetch_try_not_ok
      catch_message_def status_of_fields_def)

theorem non_ok_response_is_failure_witness:
  "\<not> ok \<lparr>status = 404, json = Resolved (JObject [(''title'', JString ''T'')])\<rparr> \<and>
   observe_fetch
     (loadWithFetch_settle
        (Responded \<lparr>status = 404, json = Resolved (JObject [(''title'', JString ''T'')])\<rparr>)
        (loadWithFetch_begin \<lparr>apodFetch = JNull, isLoadingFetch = False, errorFetch = None\<rparr>)) =
     (JNull, Failed, Some ''Fehler beim Laden (fetch): HTTP-Fehler: 404'')"
proof -
  have n: "\<not> ok \<lparr>status = 404, json = Resolved (JObject [(''title'', JString ''T'')])\<rparr>"
    by (simp add: ok_def)
  have d: "string_of_number 404 = ''404''" by code_simp
  from non_ok_response_is_failure [OF n] n d show ?thesis by simp
qed

section \<open>Properties of \<open>useTheme\<close>\<close>

lemma useContext_ThemeContext_None:
  "(useContext_ThemeContext as = None) = (\<forall>t. ThemeProvider t \<notin> set as)"
  by (induction as rule: useContext_ThemeContext.induct) auto

lemma useContext_ThemeContext_Some:
  "useContext_ThemeContext as = Some v \<Longrightarrow>
   \<exists>t. ThemeProvider t \<in> set as \<and> v = ThemeProvider_value t"
  by (induction as rule: useContext_ThemeContext.induct) auto

text \<open>
  C9. \<open>useTheme\<close> throws exactly when no \<open>ThemeProvider\<close> is among the components above
  the caller. Without one it throws its own error; with one it returns the value of a
  provider above it, whose theme is \<open>Light\<close> or \<open>Dark\<close>.
\<close>

theorem useTheme_throws_iff_no_provider:
  "(\<exists>e. useTheme ancestors = Inl e) = (\<forall>t. ThemeProvider t \<notin> set ancestors) \<and>
   (if \<exists>t. ThemeProvider t \<in> set ancestors
    then \<exists>t. ThemeProvider t \<in> set ancestors \<and> useTheme ancestors = Inr (ThemeProvider_value t)
    else useTheme ancestors =
           Inl (Error ''useTheme muss innerhalb von ThemeProvider verwendet werden.''))"
proof (cases "useContext_ThemeContext ancestors")
  case None
  then show ?thesis
    using useContext_ThemeContext_None [of ancestors] by (simp add: useTheme_def)
next
  case (Some v)
  then show ?thesis
    using useContext_ThemeContext_None [of ancestors] useContext_ThemeContext_Some [of ancestors v]
    by (auto simp: useTheme_def)
qed

theorem useTheme_throws_iff_no_provider_witness:
  "useTheme [OtherComponent] =
     Inl (Error ''useTheme muss innerhalb von ThemeProvider verwendet werden.'') \<and>
   useTheme [OtherComponent, ThemeProvider Dark, OtherComponent] = Inr (ThemeProvider_value Dark)"
  using useTheme_throws_iff_no_provider [of "[OtherComponent]"]
    useTheme_throws_iff_no_provider [of "[OtherComponent, ThemeProvider Dark, OtherComponent]"]
  by auto

end
